theory Spec2Isabelle
  imports Main "HOL-Library.AList"
begin

section \<open>Data model of the event tracker\<close>

text \<open>
  The embedding follows \<^verbatim>\<open>src/event-tracker/src/event_tracker/server.py\<close>.

  A timestamp field holds either a \<^verbatim>\<open>datetime\<close> object (a reading of the clock, here
  a natural number) or, after \<^verbatim>\<open>load_data\<close>, the string found in the snapshot:
  \<^verbatim>\<open>Company(**v)\<close> does not parse it.
\<close>

datatype stamp = At nat | Iso string

record company =
  name :: string
  website :: string
  type :: string
  first_seen :: stamp
  last_seen :: stamp

record contact =
  contact_name :: string
  title :: string
  contact_company :: string
  email :: string
  apollo_id :: string

text \<open>
  A Python \<^verbatim>\<open>dict\<close> keeps its keys in insertion order, and the enrichment loop
  iterates \<^verbatim>\<open>tracker.companies.values()\<close> in that order. A dict is therefore an
  association list: \<^verbatim>\<open>k in d\<close> is \<open>map_of d k \<noteq> None\<close>, \<^verbatim>\<open>d[k] = v\<close> is
  \<open>AList.update k v d\<close> (in place when the key is there, appended when it is not),
  \<^verbatim>\<open>d.keys()\<close> is \<open>map fst d\<close>, \<^verbatim>\<open>d.values()\<close> is \<open>map snd d\<close> and \<^verbatim>\<open>len(d)\<close> is
  \<open>length d\<close>.
\<close>

type_synonym 'v dict = "(string \<times> 'v) list"

record tracker =
  companies :: "company dict"
  contacts :: "contact dict"
  last_check :: "stamp option"

text \<open>
  \<^verbatim>\<open>EventTracker.__init__\<close> before
  \<^verbatim>\<open>load_data\<close> finds a file.
\<close>

definition init_tracker :: tracker where
  "init_tracker = \<lparr>companies = [], contacts = [], last_check = None\<rparr>"

text \<open>
  Python's truth value of \<^verbatim>\<open>tracker.last_check\<close>: \<^verbatim>\<open>None\<close> and the empty string are
  false, a \<^verbatim>\<open>datetime\<close> and a non-empty string are true.
\<close>

fun truthy :: "stamp option \<Rightarrow> bool" where
  "truthy None = False"
| "truthy (Some (At t)) = True"
| "truthy (Some (Iso s)) = (s \<noteq> [])"

section \<open>The outside world\<close>

text \<open>
  A page as the selectors of \<^verbatim>\<open>extract_companies\<close> see it: the \<^verbatim>\<open>.sponsor\<close> elements
  and the \<^verbatim>\<open>.attendee\<close> elements, each with the text of its \<^verbatim>\<open>.name\<close> and the
  \<^verbatim>\<open>href\<close> of its link.
\<close>

record page =
  sponsors :: "(string \<times> string) list"
  attendees :: "(string \<times> string) list"

text \<open>
  One element of the \<^verbatim>\<open>people\<close> list of a search response: a JSON object, read
  by key. Its values are taken to be strings.
\<close>

type_synonym person = "string dict"

text \<open>
  Everything the handler asks of its environment during one call:
  \<^item> \<open>http_get url\<close>: the page behind \<^verbatim>\<open>client.get(url)\<close>, or \<open>None\<close> when the request or
    one of the selectors raises;
  \<^item> \<open>now_at k\<close>: the value of the \<open>k\<close>-th \<^verbatim>\<open>datetime.now()\<close> of the call;
  \<^item> \<open>search_people k company levels\<close>: the outcome of the \<open>k\<close>-th
    \<^verbatim>\<open>apollo_client.search_people\<close> of the call, \<open>Inl msg\<close> when it raises an exception
    whose \<^verbatim>\<open>str\<close> is \<open>msg\<close>, \<open>Inr people\<close> when it returns;
  \<^item> \<open>add_to_sequence sequence_id ids\<close>: \<open>None\<close> when the call returns, \<open>Some msg\<close> when
    it raises;
  \<^item> \<open>write_text data\<close>: how \<^verbatim>\<open>storage_path.write_text(json.dumps(data, default=str))\<close>
    ends, see \<open>write_outcome\<close>.
\<close>

text \<open>
  \<^verbatim>\<open>Path.write_text\<close> opens the target path itself in mode \<^verbatim>\<open>'w'\<close>, which empties the
  file, writes the text and closes the file. It returns (\<open>Written\<close>), or raises before
  the file is opened and emptied (\<open>OpenFailed msg\<close>), or raises after \<open>n\<close> characters
  of the text have reached the emptied file (\<open>WriteFailed n msg\<close>, \<open>n\<close> less than the
  length of the text).
\<close>

datatype write_outcome = Written | OpenFailed string | WriteFailed nat string

record env =
  http_get :: "string \<Rightarrow> page option"
  now_at :: "nat \<Rightarrow> nat"
  search_people :: "nat \<Rightarrow> string \<Rightarrow> string list \<Rightarrow> string + person list"
  add_to_sequence :: "string \<Rightarrow> string list \<Rightarrow> string option"
  write_text :: "tracker \<Rightarrow> write_outcome"

text \<open>
  The file at \<^verbatim>\<open>storage_path\<close> as a later \<^verbatim>\<open>load_data\<close> finds it: not there, the
  whole text that \<^verbatim>\<open>json.dumps\<close> gives for the three fields of a tracker, or, after a
  write that failed part-way, only the first \<open>n\<close> characters of that text.
\<close>

datatype storage = Absent | Snapshot tracker | Torn tracker nat

text \<open>
  What reaches the environment during a call, in order: a search for a company with the
  seniority levels, an \<^verbatim>\<open>asyncio.sleep\<close> with its seconds, a log message (level and
  data) sent to the client, the batch call with the sequence id and the contact ids, and
  the \<^verbatim>\<open>write_text\<close> of \<^verbatim>\<open>save_data\<close> with the data it serializes.
\<close>

datatype event =
  Search string "string list"
| Sleep nat
| Log string string
| Enroll string "string list"
| Write tracker

text \<open>
  The exceptions of the model. \<open>UnboundLocalError v\<close> is the read of the local
  variable \<open>v\<close> before any assignment to it; \<open>HTTPError\<close> stands for whatever the
  request or the selectors of \<^verbatim>\<open>extract_companies\<close> raise.
\<close>

datatype error =
  ValueError string
| UnboundLocalError string
| KeyError string
| HTTPError
| OSError string

text \<open>
  The reply \<^verbatim>\<open>[types.TextContent(type="text", text=...)]\<close>. The summary of get-changes
  joins two Python sets, whose iteration order the language leaves open, so that reply
  keeps the two sets.
\<close>

datatype reply =
  Text string
| Changes "stamp option" "string set" "string set"

section \<open>Text helpers\<close>

definition digit :: "nat \<Rightarrow> char" where
  "digit d = (''0123456789'' ! d)"

text \<open>\<^verbatim>\<open>str(n)\<close> for a length.\<close>

function str_nat :: "nat \<Rightarrow> string" where
  "str_nat n = (if n < 10 then [digit n] else str_nat (n div 10) @ [digit (n mod 10)])"
  by pat_completeness auto
termination
  by (relation "measure id") auto

declare str_nat.simps [simp del]

text \<open>\<^verbatim>\<open>sep.join(xs)\<close>.\<close>

fun join :: "string \<Rightarrow> string list \<Rightarrow> string" where
  "join sep [] = []"
| "join sep [x] = x"
| "join sep (x # y # ys) = x @ sep @ join sep (y # ys)"

section \<open>scan-event-website\<close>

text \<open>
  \<^verbatim>\<open>extract_companies\<close>: every element becomes a \<^verbatim>\<open>Company\<close> stamped with two readings
  of the clock of its own, \<^verbatim>\<open>first_seen=datetime.now(), last_seen=datetime.now()\<close>;
  \<open>k\<close> counts the readings made so far.
\<close>

fun stamp_all :: "(nat \<Rightarrow> nat) \<Rightarrow> nat \<Rightarrow> string \<Rightarrow> (string \<times> string) list \<Rightarrow> company list" where
  "stamp_all clk k ty [] = []"
| "stamp_all clk k ty ((n, h) # es) =
     \<lparr>name = n, website = h, type = ty, first_seen = At (clk k), last_seen = At (clk (Suc k))\<rparr>
       # stamp_all clk (Suc (Suc k)) ty es"

definition extract_companies :: "env \<Rightarrow> string \<Rightarrow> error + company list" where
  "extract_companies e url =
     (case http_get e url of
        None \<Rightarrow> Inl HTTPError
      | Some pg \<Rightarrow>
          Inr (stamp_all (now_at e) 0 ''sponsor'' (sponsors pg)
               @ stamp_all (now_at e) (2 * length (sponsors pg)) ''attendee'' (attendees pg)))"

text \<open>
  The body of the loop \<^verbatim>\<open>for company in companies\<close> of the scan
  (lines 188-192).
\<close>

definition merge_company :: "stamp \<Rightarrow> company \<Rightarrow> company dict \<Rightarrow> company dict" where
  "merge_company now c d =
     (case map_of d (name c) of
        Some old \<Rightarrow> AList.update (name c) (old\<lparr>last_seen := now\<rparr>) d
      | None \<Rightarrow> AList.update (name c) c d)"

fun merge_companies :: "stamp \<Rightarrow> company list \<Rightarrow> company dict \<Rightarrow> company dict" where
  "merge_companies now [] d = d"
| "merge_companies now (c # cs) d = merge_companies now cs (merge_company now c d)"

text \<open>
  \<^verbatim>\<open>save_data\<close> (lines 52-58): one \<^verbatim>\<open>write_text\<close> of the three fields on the
  target path, with no temporary file and no rename; its exception is not caught. \<open>f\<close> is
  the file before the call.
\<close>

definition save_data :: "env \<Rightarrow> tracker \<Rightarrow> storage \<Rightarrow> error option \<times> storage \<times> event list" where
  "save_data e st f =
     (case write_text e st of
        Written \<Rightarrow> (None, Snapshot st, [Write st])
      | OpenFailed msg \<Rightarrow> (Some (OSError msg), f, [Write st])
      | WriteFailed n msg \<Rightarrow> (Some (OSError msg), Torn st n, [Write st]))"

text \<open>
  A call of the handler starts from the tracker and the file and leaves the reply or the
  exception raised, the tracker, the file and the events.
\<close>

type_synonym outcome = "(error + reply) \<times> tracker \<times> storage \<times> event list"

definition scan_event_website :: "env \<Rightarrow> string dict option \<Rightarrow> tracker \<Rightarrow> storage \<Rightarrow> outcome" where
  "scan_event_website e arguments st f =
     (case (case arguments of None \<Rightarrow> None | Some a \<Rightarrow> map_of a ''url'') of
        None \<Rightarrow> (Inl (ValueError ''URL is required''), st, f, [])
      | Some url \<Rightarrow>
          (case extract_companies e url of
             Inl err \<Rightarrow> (Inl err, st, f, [])
           | Inr cs \<Rightarrow>
               (let now = At (now_at e (2 * length cs));
                    st' = st\<lparr>companies := merge_companies now cs (companies st),
                             last_check := Some now\<rparr>
                in case save_data e st' f of
                     (Some err, f', tr) \<Rightarrow> (Inl err, st', f', tr)
                   | (None, f', tr) \<Rightarrow>
                       (Inr (Text (''Found '' @ str_nat (length cs) @ '' companies: ''
                                   @ join '', '' (map name cs))), st', f', tr))))"

section \<open>enrich-contacts\<close>

text \<open>
  \<^verbatim>\<open>Contact(name=person['name'], title=person['title'], company=company.name,
  email=person['email'], apollo_id=person['id'])\<close>: the keys are read in this order and the
  first one missing raises \<^verbatim>\<open>KeyError\<close>.
\<close>

definition make_contact :: "string \<Rightarrow> person \<Rightarrow> error + contact" where
  "make_contact cname p =
     (case map_of p ''name'' of None \<Rightarrow> Inl (KeyError ''name'') | Some n \<Rightarrow>
      (case map_of p ''title'' of None \<Rightarrow> Inl (KeyError ''title'') | Some t \<Rightarrow>
      (case map_of p ''email'' of None \<Rightarrow> Inl (KeyError ''email'') | Some m \<Rightarrow>
      (case map_of p ''id'' of None \<Rightarrow> Inl (KeyError ''id'') | Some i \<Rightarrow>
         Inr \<lparr>contact_name = n, title = t, contact_company = cname, email = m, apollo_id = i\<rparr>))))"

text \<open>
  The inner loop \<^verbatim>\<open>for person in people\<close> (lines 220-229): each contact is stored under
  its id and appended to \<^verbatim>\<open>new_contacts\<close>; an exception leaves the loop with what was
  stored so far.
\<close>

fun merge_people ::
  "string \<Rightarrow> person list \<Rightarrow> contact dict \<Rightarrow> contact list \<Rightarrow> error option \<times> contact dict \<times> contact list" where
  "merge_people cname [] cts new = (None, cts, new)"
| "merge_people cname (p # ps) cts new =
     (case make_contact cname p of
        Inl err \<Rightarrow> (Some err, cts, new)
      | Inr c \<Rightarrow> merge_people cname ps (AList.update (apollo_id c) c cts) (new @ [c]))"

definition seniority_levels :: "string list" where
  "seniority_levels = [''director'', ''executive'', ''vp'']"

text \<open>
  One pass of \<^verbatim>\<open>for company in tracker.companies.values()\<close> (lines 213-238). The
  \<^verbatim>\<open>try\<close> body is the search, the inner loop and then \<^verbatim>\<open>await asyncio.sleep(1)\<close>, so
  an exception leaves the body before the delay. The handler (lines 234-238) calls the
  coroutine function \<^verbatim>\<open>session.send_log_message\<close> without \<^verbatim>\<open>await\<close>, unlike the calls
  of lines 215, 232 and 243: the call only builds a coroutine object, which is dropped,
  so no message is sent and the handler leaves no event. \<open>k\<close> is the number of searches
  made so far.
\<close>

fun enrich_loop ::
  "env \<Rightarrow> nat \<Rightarrow> company list \<Rightarrow> contact dict \<Rightarrow> contact list \<Rightarrow> event list
     \<Rightarrow> contact dict \<times> contact list \<times> event list" where
  "enrich_loop e k [] cts new tr = (cts, new, tr)"
| "enrich_loop e k (c # cs) cts new tr =
     (case search_people e k (name c) seniority_levels of
        Inl msg \<Rightarrow>
          enrich_loop e (Suc k) cs cts new (tr @ [Search (name c) seniority_levels])
      | Inr people \<Rightarrow>
          (case merge_people (name c) people cts new of
             (Some err, cts', new') \<Rightarrow>
               enrich_loop e (Suc k) cs cts' new' (tr @ [Search (name c) seniority_levels])
           | (None, cts', new') \<Rightarrow>
               enrich_loop e (Suc k) cs cts' new'
                 (tr @ [Search (name c) seniority_levels, Sleep 1])))"

text \<open>
  Lines 240-251: the batch call, made when \<^verbatim>\<open>new_contacts\<close> is not empty. Its
  exception is caught, and the handler again calls \<^verbatim>\<open>send_log_message\<close> without
  \<^verbatim>\<open>await\<close>: no message is sent.
\<close>

definition enroll :: "env \<Rightarrow> string \<Rightarrow> contact list \<Rightarrow> event list" where
  "enroll e sequence_id new =
     (if new = [] then []
      else (case add_to_sequence e sequence_id (map apollo_id new) of
              None \<Rightarrow> [Enroll sequence_id (map apollo_id new)]
            | Some msg \<Rightarrow> [Enroll sequence_id (map apollo_id new)]))"

definition enrich_contacts :: "env \<Rightarrow> string dict option \<Rightarrow> tracker \<Rightarrow> storage \<Rightarrow> outcome" where
  "enrich_contacts e arguments st f =
     (case (case arguments of None \<Rightarrow> None | Some a \<Rightarrow> map_of a ''sequence_id'') of
        None \<Rightarrow> (Inl (ValueError ''Apollo.io sequence ID is required''), st, f, [])
      | Some sequence_id \<Rightarrow>
          (case enrich_loop e 0 (map snd (companies st)) (contacts st) [] [] of
             (cts, new, tr) \<Rightarrow>
               (let st' = st\<lparr>contacts := cts\<rparr>;
                    tr' = tr @ enroll e sequence_id new
                in case save_data e st' f of
                     (Some err, f', w) \<Rightarrow> (Inl err, st', f', tr' @ w)
                   | (None, f', w) \<Rightarrow>
                       (Inr (Text (''Added '' @ str_nat (length new) @ '' contacts to sequence'')),
                        st', f', tr' @ w))))"

section \<open>get-changes\<close>

text \<open>Lines 272-276: the two set differences.\<close>

definition diff_names :: "company list \<Rightarrow> company dict \<Rightarrow> string set \<times> string set" where
  "diff_names observed tracked =
     (let current_names = set (map name observed);
          previous_names = set (map fst tracked)
      in (current_names - previous_names, previous_names - current_names))"

text \<open>
  \<^verbatim>\<open>url\<close> is a local variable of \<^verbatim>\<open>handle_call_tool\<close> that only the scan branch assigns.
  \<open>url\<close> below is its binding when line 271 reads it: \<open>None\<close> is the unbound variable,
  whose read raises \<^verbatim>\<open>UnboundLocalError\<close>.
\<close>

definition get_changes :: "env \<Rightarrow> string option \<Rightarrow> tracker \<Rightarrow> storage \<Rightarrow> outcome" where
  "get_changes e url st f =
     (if \<not> truthy (last_check st)
      then (Inr (Text ''No previous scan to compare with''), st, f, [])
      else (case url of
              None \<Rightarrow> (Inl (UnboundLocalError ''url''), st, f, [])
            | Some u \<Rightarrow>
                (case extract_companies e u of
                   Inl err \<Rightarrow> (Inl err, st, f, [])
                 | Inr cs \<Rightarrow>
                     (case diff_names cs (companies st) of
                        (new_companies, removed_companies) \<Rightarrow>
                          (Inr (Changes (last_check st) new_companies removed_companies),
                           st, f, [])))))"

section \<open>The dispatcher\<close>

text \<open>
  \<^verbatim>\<open>handle_call_tool\<close>. In the get-changes branch no assignment to \<^verbatim>\<open>url\<close> has run.
\<close>

definition handle_call_tool ::
  "env \<Rightarrow> string \<Rightarrow> string dict option \<Rightarrow> tracker \<Rightarrow> storage \<Rightarrow> outcome" where
  "handle_call_tool e tool arguments st f =
     (if tool = ''scan-event-website'' then scan_event_website e arguments st f
      else if tool = ''enrich-contacts'' then enrich_contacts e arguments st f
      else if tool = ''get-changes'' then get_changes e None st f
      else (Inl (ValueError (''Unknown tool: '' @ tool)), st, f, []))"

section \<open>Views of a run\<close>

text \<open>The exception, if any, that ends the inner loop over one search result.\<close>

fun first_error :: "string \<Rightarrow> person list \<Rightarrow> error option" where
  "first_error cname [] = None"
| "first_error cname (p # ps) =
     (case make_contact cname p of Inl err \<Rightarrow> Some err | Inr c \<Rightarrow> first_error cname ps)"

text \<open>
  The contacts the inner loop builds from one search result: those of the records before
  the first one that raises.
\<close>

fun built :: "string \<Rightarrow> person list \<Rightarrow> contact list" where
  "built cname [] = []"
| "built cname (p # ps) =
     (case make_contact cname p of Inl err \<Rightarrow> [] | Inr c \<Rightarrow> c # built cname ps)"

text \<open>\<^verbatim>\<open>tracker.contacts[contact.apollo_id] = contact\<close> for each contact of a list, in order.\<close>

definition store_all :: "contact list \<Rightarrow> contact dict \<Rightarrow> contact dict" where
  "store_all cs d = foldl (\<lambda>d c. AList.update (apollo_id c) c d) d cs"

text \<open>Whether the \<open>k\<close>-th pass raises: the search itself, or a record of its result.\<close>

definition raises :: "env \<Rightarrow> nat \<Rightarrow> company \<Rightarrow> bool" where
  "raises e k c =
     (case search_people e k (name c) seniority_levels of
        Inl msg \<Rightarrow> True
      | Inr people \<Rightarrow> first_error (name c) people \<noteq> None)"

text \<open>The contacts built in the \<open>k\<close>-th pass.\<close>

definition processed :: "env \<Rightarrow> nat \<Rightarrow> company \<Rightarrow> contact list" where
  "processed e k c =
     (case search_people e k (name c) seniority_levels of
        Inl msg \<Rightarrow> []
      | Inr people \<Rightarrow> built (name c) people)"

text \<open>
  The events of the \<open>k\<close>-th pass: the search, and the delay when the \<^verbatim>\<open>try\<close> body
  reaches its end.
\<close>

definition company_events :: "env \<Rightarrow> nat \<Rightarrow> company \<Rightarrow> event list" where
  "company_events e k c =
     Search (name c) seniority_levels # (if raises e k c then [] else [Sleep 1])"

text \<open>The events of all passes.\<close>

fun loop_events :: "env \<Rightarrow> nat \<Rightarrow> company list \<Rightarrow> event list" where
  "loop_events e k [] = []"
| "loop_events e k (c # cs) = company_events e k c @ loop_events e (Suc k) cs"

text \<open>The contacts built in all passes, in order: \<^verbatim>\<open>new_contacts\<close> after the loop.\<close>

fun loop_built :: "env \<Rightarrow> nat \<Rightarrow> company list \<Rightarrow> contact list" where
  "loop_built e k [] = []"
| "loop_built e k (c # cs) = processed e k c @ loop_built e (Suc k) cs"

text \<open>The company names searched for, in order.\<close>

fun searched :: "event list \<Rightarrow> string list" where
  "searched [] = []"
| "searched (Search n l # es) = n # searched es"
| "searched (ev # es) = searched es"

text \<open>The batch calls made, in order.\<close>

fun enrolled :: "event list \<Rightarrow> (string \<times> string list) list" where
  "enrolled [] = []"
| "enrolled (Enroll s ids # es) = (s, ids) # enrolled es"
| "enrolled (ev # es) = enrolled es"

text \<open>The log messages sent, in order.\<close>

fun logged :: "event list \<Rightarrow> (string \<times> string) list" where
  "logged [] = []"
| "logged (Log level msg # es) = (level, msg) # logged es"
| "logged (ev # es) = logged es"

fun is_enroll :: "event \<Rightarrow> bool" where
  "is_enroll (Enroll s ids) = True"
| "is_enroll ev = False"

text \<open>
  A trace in which a delay lies between any two successive searches; the flag says that
  a search has been made and no delay since.
\<close>

fun rate_limited :: "bool \<Rightarrow> event list \<Rightarrow> bool" where
  "rate_limited pending [] = True"
| "rate_limited pending (Search n l # es) = (\<not> pending \<and> rate_limited True es)"
| "rate_limited pending (Sleep d # es) = rate_limited False es"
| "rate_limited pending (ev # es) = rate_limited pending es"

text \<open>
  A record of the shape the search contract promises: \<^verbatim>\<open>name\<close>, \<^verbatim>\<open>title\<close>, \<^verbatim>\<open>email\<close>
  and \<^verbatim>\<open>id\<close> are there.
\<close>

definition well_formed :: "person \<Rightarrow> bool" where
  "well_formed p =
     (map_of p ''name'' \<noteq> None \<and> map_of p ''title'' \<noteq> None
      \<and> map_of p ''email'' \<noteq> None \<and> map_of p ''id'' \<noteq> None)"

text \<open>The four parts of what a call leaves.\<close>

definition reply_of :: "outcome \<Rightarrow> error + reply" where
  "reply_of r = fst r"

definition tracker_of :: "outcome \<Rightarrow> tracker" where
  "tracker_of r = fst (snd r)"

definition storage_of :: "outcome \<Rightarrow> storage" where
  "storage_of r = fst (snd (snd r))"

definition trace_of :: "outcome \<Rightarrow> event list" where
  "trace_of r = snd (snd (snd r))"

text \<open>
  The contact ids that a run merged newly, in the order of the mapping: those that are
  keys after the run and were not before it. Their number.
\<close>

definition new_ids :: "tracker \<Rightarrow> tracker \<Rightarrow> string list" where
  "new_ids before after =
     filter (\<lambda>i. i \<notin> set (map fst (contacts before))) (map fst (contacts after))"

definition newly_merged :: "tracker \<Rightarrow> tracker \<Rightarrow> nat" where
  "newly_merged before after =
     card (set (map fst (contacts after)) - set (map fst (contacts before)))"

section \<open>Sample data\<close>

text \<open>A tracked company and a search record of the contract's shape.\<close>

definition a_company :: "string \<Rightarrow> company" where
  "a_company n =
     \<lparr>name = n, website = ''www.example'', type = ''sponsor'', first_seen = At 1, last_seen = At 2\<rparr>"

definition a_person :: "string \<Rightarrow> person" where
  "a_person i = [(''name'', ''Ann''), (''title'', ''CEO''), (''email'', ''ann@a.example''), (''id'', i)]"

text \<open>
  A contact service that answers every search with the same person and refuses the
  batch; one whose every search fails; one whose answer has a record without a title
  between two whole records; and one that finds nobody, with a disk that fills after 64
  characters of the write.
\<close>

definition env_up :: env where
  "env_up =
     \<lparr>http_get = (\<lambda>url. None), now_at = (\<lambda>k. k),
      search_people = (\<lambda>k n levels. Inr [a_person ''7'']),
      add_to_sequence = (\<lambda>s ids. Some ''refused''),
      write_text = (\<lambda>data. Written)\<rparr>"

definition env_down :: env where
  "env_down =
     \<lparr>http_get = (\<lambda>url. None), now_at = (\<lambda>k. k),
      search_people = (\<lambda>k n levels. Inl ''timeout''),
      add_to_sequence = (\<lambda>s ids. None),
      write_text = (\<lambda>data. Written)\<rparr>"

definition env_gap :: env where
  "env_gap =
     \<lparr>http_get = (\<lambda>url. None), now_at = (\<lambda>k. k),
      search_people = (\<lambda>k n levels.
         Inr [a_person ''1'',
              [(''name'', ''Bob''), (''email'', ''bob@a.example''), (''id'', ''2'')],
              a_person ''3'']),
      add_to_sequence = (\<lambda>s ids. None),
      write_text = (\<lambda>data. Written)\<rparr>"

definition env_full :: env where
  "env_full =
     \<lparr>http_get = (\<lambda>url. None), now_at = (\<lambda>k. k),
      search_people = (\<lambda>k n levels. Inr []),
      add_to_sequence = (\<lambda>s ids. None),
      write_text = (\<lambda>data. WriteFailed 64 ''No space left on device'')\<rparr>"

text \<open>
  A tracker with two companies and that person's contact, a tracker with one company
  and no contact, and the argument dict.
\<close>

definition two_tracked :: tracker where
  "two_tracked =
     \<lparr>companies = [(''A'', a_company ''A''), (''B'', a_company ''B'')],
      contacts = [(''7'', \<lparr>contact_name = ''Ann'', title = ''CEO'', contact_company = ''A'',
                            email = ''ann@a.example'', apollo_id = ''7''\<rparr>)],
      last_check = Some (At 3)\<rparr>"

definition one_tracked :: tracker where
  "one_tracked =
     \<lparr>companies = [(''A'', a_company ''A'')], contacts = [], last_check = Some (At 3)\<rparr>"

definition seq_args :: "string dict" where
  "seq_args = [(''sequence_id'', ''s1'')]"

text \<open>
  A page with one sponsor and one attendee, read by a clock that advances at each
  reading, and the argument dict of a scan.
\<close>

definition env_page :: env where
  "env_page =
     \<lparr>http_get = (\<lambda>url. Some \<lparr>sponsors = [(''A'', ''a.example'')], attendees = [(''C'', ''c.example'')]\<rparr>),
      now_at = (\<lambda>k. 10 + k),
      search_people = (\<lambda>k n levels. Inr []),
      add_to_sequence = (\<lambda>s ids. None),
      write_text = (\<lambda>data. Written)\<rparr>"

definition url_args :: "string dict" where
  "url_args = [(''url'', ''https://event.example'')]"

section \<open>The enrichment loop, pass by pass\<close>

lemmas fixtures =
  env_up_def env_down_def env_gap_def env_full_def two_tracked_def one_tracked_def
  seq_args_def a_company_def a_person_def

lemma store_all_simps [simp]:
  "store_all [] d = d"
  "store_all (c # cs) d = store_all cs (AList.update (apollo_id c) c d)"
  "store_all (cs @ cs') d = store_all cs' (store_all cs d)"
  by (simp_all add: store_all_def)

lemma merge_people_eq:
  "merge_people cname ps cts new =
     (first_error cname ps, store_all (built cname ps) cts, new @ built cname ps)"
  by (induction ps arbitrary: cts new) (auto split: sum.splits)

lemma enrich_loop_eq:
  "enrich_loop e k cs cts new tr =
     (store_all (loop_built e k cs) cts, new @ loop_built e k cs, tr @ loop_events e k cs)"
proof (induction cs arbitrary: k cts new tr)
  case Nil
  show ?case by simp
next
  case (Cons c cs)
  show ?case
  proof (cases "search_people e k (name c) seniority_levels")
    case (Inl msg)
    then show ?thesis
      by (simp add: Cons.IH processed_def raises_def company_events_def)
  next
    case (Inr people)
    then show ?thesis
      by (cases "first_error (name c) people")
         (simp_all add: Cons.IH merge_people_eq processed_def raises_def company_events_def)
  qed
qed

lemma enrich_contacts_eq:
  assumes "map_of a ''sequence_id'' = Some sid"
  shows "handle_call_tool e ''enrich-contacts'' (Some a) st f =
     (let new = loop_built e 0 (map snd (companies st));
          st' = st\<lparr>contacts := store_all new (contacts st)\<rparr>
      in ((case write_text e st' of
             Written \<Rightarrow> Inr (Text (''Added '' @ str_nat (length new) @ '' contacts to sequence''))
           | OpenFailed msg \<Rightarrow> Inl (OSError msg)
           | WriteFailed n msg \<Rightarrow> Inl (OSError msg)),
          st',
          (case write_text e st' of
             Written \<Rightarrow> Snapshot st'
           | OpenFailed msg \<Rightarrow> f
           | WriteFailed n msg \<Rightarrow> Torn st' n),
          loop_events e 0 (map snd (companies st)) @ enroll e sid new @ [Write st']))"
  using assms
  by (simp add: handle_call_tool_def enrich_contacts_def enrich_loop_eq save_data_def Let_def
           split: write_outcome.splits)

lemma enrich_run:
  assumes "map_of a ''sequence_id'' = Some sid"
  shows "reply_of (handle_call_tool e ''enrich-contacts'' (Some a) st f) =
           (case write_text e (tracker_of (handle_call_tool e ''enrich-contacts'' (Some a) st f)) of
              Written \<Rightarrow> Inr (Text (''Added ''
                        @ str_nat (length (loop_built e 0 (map snd (companies st))))
                        @ '' contacts to sequence''))
            | OpenFailed msg \<Rightarrow> Inl (OSError msg)
            | WriteFailed n msg \<Rightarrow> Inl (OSError msg))"
    and "tracker_of (handle_call_tool e ''enrich-contacts'' (Some a) st f) =
           st\<lparr>contacts := store_all (loop_built e 0 (map snd (companies st))) (contacts st)\<rparr>"
    and "trace_of (handle_call_tool e ''enrich-contacts'' (Some a) st f) =
           loop_events e 0 (map snd (companies st))
           @ enroll e sid (loop_built e 0 (map snd (companies st)))
           @ [Write (tracker_of (handle_call_tool e ''enrich-contacts'' (Some a) st f))]"
    and "storage_of (handle_call_tool e ''enrich-contacts'' (Some a) st f) =
           (case write_text e (tracker_of (handle_call_tool e ''enrich-contacts'' (Some a) st f)) of
              Written \<Rightarrow> Snapshot (tracker_of (handle_call_tool e ''enrich-contacts'' (Some a) st f))
            | OpenFailed msg \<Rightarrow> f
            | WriteFailed n msg \<Rightarrow>
                Torn (tracker_of (handle_call_tool e ''enrich-contacts'' (Some a) st f)) n)"
  by (simp_all add: enrich_contacts_eq [OF assms] reply_of_def tracker_of_def trace_of_def
        storage_of_def Let_def split: write_outcome.splits)

lemma searched_append [simp]: "searched (xs @ ys) = searched xs @ searched ys"
  by (induction xs rule: searched.induct) simp_all

lemma enrolled_append [simp]: "enrolled (xs @ ys) = enrolled xs @ enrolled ys"
  by (induction xs rule: enrolled.induct) simp_all

lemma logged_append [simp]: "logged (xs @ ys) = logged xs @ logged ys"
  by (induction xs rule: logged.induct) simp_all

lemma searched_loop_events [simp]: "searched (loop_events e k cs) = map name cs"
  by (induction cs arbitrary: k) (simp_all add: company_events_def)

lemma enrolled_loop_events [simp]: "enrolled (loop_events e k cs) = []"
  by (induction cs arbitrary: k) (simp_all add: company_events_def)

lemma logged_loop_events [simp]: "logged (loop_events e k cs) = []"
  by (induction cs arbitrary: k) (simp_all add: company_events_def)

lemma is_enroll_loop_events: "ev \<in> set (loop_events e k cs) \<Longrightarrow> \<not> is_enroll ev"
  by (induction cs arbitrary: k) (auto simp: company_events_def split: if_splits)

lemma searched_enroll [simp]: "searched (enroll e sid new) = []"
  by (simp add: enroll_def split: option.splits)

lemma logged_enroll [simp]: "logged (enroll e sid new) = []"
  by (simp add: enroll_def split: option.splits)

lemma enrolled_enroll [simp]:
  "enrolled (enroll e sid new) = (if new = [] then [] else [(sid, map apollo_id new)])"
  by (simp add: enroll_def split: option.splits)

lemma searched_dropWhile: "searched xs = [] \<Longrightarrow> searched (dropWhile P xs) = []"
  by (induction xs rule: searched.induct) simp_all

section \<open>The contact mapping after a run\<close>

lemma keys_store_all:
  "set (map fst (store_all cs d)) = set (map fst d) \<union> set (map apollo_id cs)"
  by (induction cs arbitrary: d) (auto simp: dom_update)

lemma length_update_present:
  "k \<in> fst ` set al \<Longrightarrow> length (AList.update k v al) = length al"
  by (induction al) auto

lemma length_store_all:
  "set (map apollo_id cs) \<subseteq> set (map fst d) \<Longrightarrow> length (store_all cs d) = length d"
proof (induction cs arbitrary: d)
  case Nil
  show ?case by simp
next
  case (Cons c cs)
  from Cons.prems have "apollo_id c \<in> fst ` set d" by simp
  then have len: "length (AList.update (apollo_id c) c d) = length d"
    by (rule length_update_present)
  from Cons.prems have "set (map apollo_id cs) \<subseteq> set (map fst (AList.update (apollo_id c) c d))"
    by (auto simp: dom_update)
  from Cons.IH [OF this] len show ?case by simp
qed

lemma map_of_store_all:
  "map_of (store_all cs d) i =
     (case find (\<lambda>c. apollo_id c = i) (rev cs) of Some c \<Rightarrow> Some c | None \<Rightarrow> map_of d i)"
proof (induction cs rule: rev_induct)
  case Nil
  show ?case by simp
next
  case (snoc c cs)
  then show ?case by (simp add: update_conv')
qed

lemma make_contact_well_formed:
  "well_formed p \<Longrightarrow> \<exists>c. make_contact cname p = Inr c \<and> map_of p ''id'' = Some (apollo_id c)"
  by (auto simp: well_formed_def make_contact_def)

lemma built_ids:
  "list_all well_formed ps \<Longrightarrow> p \<in> set ps \<Longrightarrow> map_of p ''id'' = Some i
     \<Longrightarrow> i \<in> set (map apollo_id (built cname ps))"
proof (induction ps)
  case Nil
  then show ?case by simp
next
  case (Cons q ps)
  from Cons.prems(1) obtain c where c: "make_contact cname q = Inr c" "map_of q ''id'' = Some (apollo_id c)"
    using make_contact_well_formed [of q cname] by auto
  show ?case
  proof (cases "p = q")
    case True
    with c Cons.prems(3) show ?thesis by simp
  next
    case False
    with Cons have "i \<in> set (map apollo_id (built cname ps))" by simp
    with c show ?thesis by simp
  qed
qed

lemma processed_subset:
  "k < length cs \<Longrightarrow> set (processed e (j + k) (cs ! k)) \<subseteq> set (loop_built e j cs)"
proof (induction cs arbitrary: j k)
  case Nil
  then show ?case by simp
next
  case (Cons c cs)
  show ?case
  proof (cases k)
    case 0
    then show ?thesis by simp
  next
    case (Suc m)
    with Cons.prems have "m < length cs" by simp
    from Cons.IH [OF this, of "Suc j"] Suc show ?thesis by auto
  qed
qed

section \<open>get-changes: what the code returns\<close>

lemma get_changes_cases:
  "fst (handle_call_tool e ''get-changes'' a st f) =
     (if truthy (last_check st)
      then Inl (UnboundLocalError ''url'')
      else Inr (Text ''No previous scan to compare with''))"
  by (simp add: handle_call_tool_def get_changes_def)

text \<open>
  C1. The claim: get-changes returns "No previous scan to compare with" when
  \<open>last_check\<close> is unset, and returns a summary (does not raise) when it is set. The code
  does the first, and in the second case reads the unassigned local \<^verbatim>\<open>url\<close> on line 271
  and raises. Here the tracker holds one company and the time of an earlier scan, and
  the call ends in \<^verbatim>\<open>UnboundLocalError\<close>.
\<close>

theorem get_changes_after_scan_raises:
  "fst (handle_call_tool e ''get-changes'' None
      \<lparr>companies = [(''A'', \<lparr>name = ''A'', website = ''a.example'', type = ''sponsor'',
                              first_seen = At 1, last_seen = At 2\<rparr>)],
       contacts = [], last_check = Some (At 3)\<rparr> f)
   = Inl (UnboundLocalError ''url'')"
  by (simp add: handle_call_tool_def get_changes_def)

section \<open>enrich-contacts: the frame\<close>

text \<open>
  C10. A call of enrich-contacts leaves the company mapping and \<open>last_check\<close> of the
  tracker as they were, whatever the searches, the batch call and the write do.
\<close>

theorem enrich_contacts_frame:
  "companies (fst (snd (handle_call_tool e ''enrich-contacts'' a st f))) = companies st
   \<and> last_check (fst (snd (handle_call_tool e ''enrich-contacts'' a st f))) = last_check st"
  by (auto simp: handle_call_tool_def enrich_contacts_def save_data_def Let_def
           split: option.splits prod.splits write_outcome.splits)

section \<open>enrich-contacts: the number reported\<close>

text \<open>
  C2. The claim: the number \<open>N\<close> of "Added N contacts to sequence" is the number of
  distinct contact ids newly merged in the run. The code reports \<^verbatim>\<open>len(new_contacts)\<close>,
  and every contact built from a search result is appended to that list, whether its id
  was stored before or was returned before in the same run. What holds: \<open>N\<close> is the
  number of contact records built and stored in the run, which is at least the number
  of newly merged ids.
\<close>

theorem enrich_reports_records_stored:
  assumes "map_of a ''sequence_id'' = Some sid"
    and "write_text e (tracker_of (handle_call_tool e ''enrich-contacts'' (Some a) st f)) = Written"
  shows "reply_of (handle_call_tool e ''enrich-contacts'' (Some a) st f) =
           Inr (Text (''Added '' @ str_nat (length (loop_built e 0 (map snd (companies st))))
                      @ '' contacts to sequence''))
         \<and> newly_merged st (tracker_of (handle_call_tool e ''enrich-contacts'' (Some a) st f))
             \<le> length (loop_built e 0 (map snd (companies st)))"
proof -
  let ?new = "loop_built e 0 (map snd (companies st))"
  have "set (map fst (store_all ?new (contacts st))) - set (map fst (contacts st))
          \<subseteq> set (map apollo_id ?new)"
    unfolding keys_store_all by blast
  then have "card (set (map fst (store_all ?new (contacts st))) - set (map fst (contacts st)))
          \<le> card (set (map apollo_id ?new))"
    by (intro card_mono) simp_all
  also have "\<dots> \<le> length ?new"
    using card_length [of "map apollo_id ?new"] by simp
  finally show ?thesis
    using assms(2) by (simp add: enrich_run [OF assms(1)] newly_merged_def)
qed

theorem enrich_reports_records_stored_witness:
  "map_of seq_args ''sequence_id'' = Some ''s1''
   \<and> write_text env_up (tracker_of (handle_call_tool env_up ''enrich-contacts'' (Some seq_args) two_tracked Absent)) = Written
   \<and> reply_of (handle_call_tool env_up ''enrich-contacts'' (Some seq_args) two_tracked Absent) =
           Inr (Text (''Added '' @ str_nat (length (loop_built env_up 0 (map snd (companies two_tracked))))
                      @ '' contacts to sequence''))
   \<and> length (loop_built env_up 0 (map snd (companies two_tracked))) = 2"
proof -
  have a: "map_of seq_args ''sequence_id'' = Some ''s1''"
    by (simp add: seq_args_def)
  have w: "write_text env_up (tracker_of (handle_call_tool env_up ''enrich-contacts'' (Some seq_args) two_tracked Absent)) = Written"
    by (simp add: env_up_def)
  have n: "length (loop_built env_up 0 (map snd (companies two_tracked))) = 2"
    by (simp add: fixtures processed_def make_contact_def)
  from enrich_reports_records_stored [OF a w] a w n show ?thesis by simp
qed

text \<open>
  The contact 7 is stored before the run and both searches return it: no id is new, and
  the reply says 2.
\<close>

theorem enrich_count_counterexample:
  "\<not> (reply_of (handle_call_tool env_up ''enrich-contacts'' (Some seq_args) two_tracked Absent) =
        Inr (Text (''Added ''
          @ str_nat (newly_merged two_tracked
               (tracker_of (handle_call_tool env_up ''enrich-contacts'' (Some seq_args) two_tracked Absent)))
          @ '' contacts to sequence'')))"
  by code_simp

section \<open>scan-event-website: merging the observed companies\<close>

lemma merge_company_other:
  "n \<noteq> name c \<Longrightarrow> map_of (merge_company now c d) n = map_of d n"
  by (simp add: merge_company_def update_conv' split: option.splits)

lemma merge_company_present:
  "map_of d (name c) = Some old
     \<Longrightarrow> map_of (merge_company now c d) (name c) = Some (old\<lparr>last_seen := now\<rparr>)"
  by (simp add: merge_company_def update_conv')

lemma merge_company_absent:
  "map_of d (name c) = None \<Longrightarrow> map_of (merge_company now c d) (name c) = Some c"
  by (simp add: merge_company_def update_conv')

lemma merge_companies_tracked:
  "map_of d n = Some old
     \<Longrightarrow> map_of (merge_companies now cs d) n
           = Some (old\<lparr>last_seen := (if n \<in> set (map name cs) then now else last_seen old)\<rparr>)"
proof (induction cs arbitrary: d old)
  case Nil
  then show ?case by simp
next
  case (Cons c cs)
  show ?case
  proof (cases "n = name c")
    case True
    with Cons.prems have "map_of (merge_company now c d) n = Some (old\<lparr>last_seen := now\<rparr>)"
      by (simp add: merge_company_present)
    from Cons.IH [OF this] True show ?thesis by simp
  next
    case False
    with Cons.prems have "map_of (merge_company now c d) n = Some old"
      by (simp add: merge_company_other)
    from Cons.IH [OF this] False show ?thesis by simp
  qed
qed

text \<open>
  C7. The claim: a tracked company gets \<open>last_seen = now\<close> and keeps \<open>first_seen\<close>,
  \<open>website\<close> and \<open>type\<close>; an absent one is inserted with \<open>first_seen = last_seen = now\<close>;
  so repeated merges never change \<open>first_seen\<close>. The first and the last part hold. An
  absent company is inserted as the record \<^verbatim>\<open>extract_companies\<close> built, which carries two
  clock readings of its own, taken before the handler reads \<^verbatim>\<open>now\<close>. What holds: one step
  of the loop turns a tracked entry into itself with \<open>last_seen := now\<close> and stores an
  absent company as observed; after the whole batch an entry tracked before differs from
  its old value at most in \<open>last_seen\<close>, which is \<open>now\<close> exactly when the batch names it.
\<close>

theorem merge_companies_keeps_first_seen:
  "(map_of d (name c) = Some old \<longrightarrow>
      map_of (merge_company now c d) (name c) = Some (old\<lparr>last_seen := now\<rparr>))
   \<and> (map_of d (name c) = None \<longrightarrow> map_of (merge_company now c d) (name c) = Some c)
   \<and> (map_of d n = Some old \<longrightarrow>
        map_of (merge_companies now cs d) n
          = Some (old\<lparr>last_seen := (if n \<in> set (map name cs) then now else last_seen old)\<rparr>))"
  using merge_company_present [of d c old now] merge_company_absent [of d c now]
    merge_companies_tracked [of d n old now cs]
  by blast

theorem merge_companies_keeps_first_seen_witness:
  "map_of (companies two_tracked) (name (a_company ''A'')) = Some (a_company ''A'')
   \<and> map_of (merge_company (At 9) (a_company ''A'') (companies two_tracked)) ''A''
       = Some \<lparr>name = ''A'', website = ''www.example'', type = ''sponsor'',
                 first_seen = At 1, last_seen = At 9\<rparr>
   \<and> map_of (merge_companies (At 9) [a_company ''A'', a_company ''A''] (companies two_tracked)) ''A''
       = Some \<lparr>name = ''A'', website = ''www.example'', type = ''sponsor'',
                 first_seen = At 1, last_seen = At 9\<rparr>
   \<and> map_of [] (name (a_company ''C'')) = (None :: company option)
   \<and> map_of (merge_company (At 9) (a_company ''C'') []) ''C'' = Some (a_company ''C'')"
proof -
  have p: "map_of (companies two_tracked) (name (a_company ''A'')) = Some (a_company ''A'')"
    by (simp add: two_tracked_def a_company_def)
  have q: "map_of [] (name (a_company ''C'')) = (None :: company option)"
    by simp
  have n: "name (a_company ''A'') = ''A''" "name (a_company ''C'') = ''C''"
    by (simp_all add: a_company_def)
  have u: "(a_company ''A'')\<lparr>last_seen := At 9\<rparr>
             = \<lparr>name = ''A'', website = ''www.example'', type = ''sponsor'',
                 first_seen = At 1, last_seen = At 9\<rparr>"
    by (simp add: a_company_def)
  from merge_companies_keeps_first_seen
         [of "companies two_tracked" "a_company ''A''" "a_company ''A''" "At 9" "''A''"
             "[a_company ''A'', a_company ''A'']"]
       merge_companies_keeps_first_seen
         [of "[]" "a_company ''C''" "a_company ''C''" "At 9" "''C''" "[]"]
       p q n u
  show ?thesis by simp
qed

text \<open>
  A first scan of a page: the clock reads 10 and 11 for the stamps of company A and 14
  for \<^verbatim>\<open>now\<close>, so the inserted company has neither \<open>first_seen\<close> nor \<open>last_seen\<close> equal to
  \<open>now\<close>.
\<close>

theorem scan_insert_counterexample:
  "map_of (companies (tracker_of
       (handle_call_tool env_page ''scan-event-website'' (Some url_args) init_tracker Absent))) ''A''
     = Some \<lparr>name = ''A'', website = ''a.example'', type = ''sponsor'',
              first_seen = At 10, last_seen = At 11\<rparr>
   \<and> last_check (tracker_of
       (handle_call_tool env_page ''scan-event-website'' (Some url_args) init_tracker Absent))
     = Some (At 14)
   \<and> map_option first_seen (map_of (companies (tracker_of
       (handle_call_tool env_page ''scan-event-website'' (Some url_args) init_tracker Absent))) ''A'')
     \<noteq> last_check (tracker_of
       (handle_call_tool env_page ''scan-event-website'' (Some url_args) init_tracker Absent))"
  by code_simp

section \<open>enrich-contacts: the delay between searches\<close>

lemma rate_limited_quiet: "searched tr = [] \<Longrightarrow> rate_limited b tr"
  by (induction b tr rule: rate_limited.induct) simp_all

lemma rate_limited_loop:
  "(\<forall>i<length cs. \<not> raises e (k + i) (cs ! i)) \<Longrightarrow> searched rest = []
     \<Longrightarrow> rate_limited False (loop_events e k cs @ rest)"
proof (induction cs arbitrary: k)
  case Nil
  then show ?case by (simp add: rate_limited_quiet)
next
  case (Cons c cs)
  from Cons.prems(1) have c: "\<not> raises e k c" by force
  have "\<forall>i<length cs. \<not> raises e (Suc k + i) (cs ! i)"
  proof (intro allI impI)
    fix i assume "i < length cs"
    with Cons.prems(1) have "\<not> raises e (k + Suc i) ((c # cs) ! Suc i)" by force
    then show "\<not> raises e (Suc k + i) (cs ! i)" by simp
  qed
  from Cons.IH [OF this Cons.prems(2)] c show ?case
    by (simp add: company_events_def)
qed

text \<open>
  A run in which no pass raises makes the delay after every search.
\<close>

lemma enrich_delay_when_no_pass_raises:
  assumes "map_of a ''sequence_id'' = Some sid"
    and "\<forall>i<length (companies st). \<not> raises e i (snd (companies st ! i))"
  shows "rate_limited False (trace_of (handle_call_tool e ''enrich-contacts'' (Some a) st f))"
proof -
  from assms(2) have "\<forall>i<length (map snd (companies st)).
      \<not> raises e (0 + i) (map snd (companies st) ! i)"
    by simp
  then show ?thesis
    unfolding enrich_run(3) [OF assms(1)]
    by (rule rate_limited_loop) simp
qed

text \<open>
  C3. The claim: between any two successive search calls a delay is made, whether the
  earlier call succeeded or failed. The delay \<^verbatim>\<open>await asyncio.sleep(1)\<close> under the comment
  \<^verbatim>\<open># Rate limiting\<close> is the last statement of the \<^verbatim>\<open>try\<close> body, so the exception of a
  failed search leaves the body before it. Here both searches fail, and the search for B
  follows the search for A with no delay between them.
\<close>

theorem enrich_no_delay_after_failed_search:
  "search_people env_down 0 ''A'' seniority_levels = Inl ''timeout''
   \<and> trace_of (handle_call_tool env_down ''enrich-contacts'' (Some seq_args) two_tracked Absent)
       = [Search ''A'' seniority_levels, Search ''B'' seniority_levels, Write two_tracked]
   \<and> \<not> rate_limited False
         (trace_of (handle_call_tool env_down ''enrich-contacts'' (Some seq_args) two_tracked Absent))"
  by code_simp

section \<open>enrich-contacts: a failed search\<close>

text \<open>
  No call of the handler sends a log message, and a run of enrich-contacts searches for
  every tracked company whatever the earlier searches did.
\<close>

lemma nothing_logged: "logged (trace_of (handle_call_tool e tool a st f)) = []"
  by (auto simp: trace_of_def handle_call_tool_def scan_event_website_def enrich_contacts_def
        get_changes_def save_data_def enrich_loop_eq Let_def
        split: option.splits sum.splits prod.splits write_outcome.splits)

lemma enrich_searches_every_company:
  assumes "map_of a ''sequence_id'' = Some sid"
  shows "searched (trace_of (handle_call_tool e ''enrich-contacts'' (Some a) st f))
           = map name (map snd (companies st))"
  by (simp add: enrich_run(3) [OF assms])

text \<open>
  C5. The claim: the failure of a company's search is logged, the run goes on with the
  next company, and the run ends with its reply. The run does go on and does reply. The
  handler of lines 234-238 builds the message and calls \<^verbatim>\<open>send_log_message\<close> without
  \<^verbatim>\<open>await\<close>, so the message is never sent. Here both searches fail: both companies are
  searched, the reply is "Added 0 contacts to sequence", and nothing is logged.
\<close>

theorem enrich_failed_search_not_logged:
  "search_people env_down 0 ''A'' seniority_levels = Inl ''timeout''
   \<and> logged (trace_of (handle_call_tool env_down ''enrich-contacts'' (Some seq_args) two_tracked Absent))
       = []
   \<and> searched (trace_of (handle_call_tool env_down ''enrich-contacts'' (Some seq_args) two_tracked Absent))
       = [''A'', ''B'']
   \<and> reply_of (handle_call_tool env_down ''enrich-contacts'' (Some seq_args) two_tracked Absent)
       = Inr (Text ''Added 0 contacts to sequence'')"
  by code_simp

section \<open>The snapshot file\<close>

text \<open>
  C4. The claim: a save overwrites the snapshot all-or-nothing, a later load never finds
  a half-written file, and a failed write leaves the prior snapshot intact. The code
  writes the target path in place. What holds: when the write returns, the file is the
  whole snapshot of the tracker; when it fails before the file is opened, the file is
  as before; when it fails later, the file holds only the first characters of the new
  text and the prior snapshot is gone. After any call of the handler the file is as
  before the call, or the whole snapshot of the tracker, or a torn one.
\<close>

theorem save_data_overwrites_in_place:
  "(write_text e st = Written \<longrightarrow> save_data e st f = (None, Snapshot st, [Write st]))
   \<and> (\<forall>msg. write_text e st = OpenFailed msg \<longrightarrow>
         save_data e st f = (Some (OSError msg), f, [Write st]))
   \<and> (\<forall>n msg. write_text e st = WriteFailed n msg \<longrightarrow>
         save_data e st f = (Some (OSError msg), Torn st n, [Write st]))
   \<and> (storage_of (handle_call_tool e tool a st f) = f
       \<or> storage_of (handle_call_tool e tool a st f)
            = Snapshot (tracker_of (handle_call_tool e tool a st f))
       \<or> (\<exists>n. storage_of (handle_call_tool e tool a st f)
            = Torn (tracker_of (handle_call_tool e tool a st f)) n))"
proof (intro conjI)
  show "storage_of (handle_call_tool e tool a st f) = f
       \<or> storage_of (handle_call_tool e tool a st f)
            = Snapshot (tracker_of (handle_call_tool e tool a st f))
       \<or> (\<exists>n. storage_of (handle_call_tool e tool a st f)
            = Torn (tracker_of (handle_call_tool e tool a st f)) n)"
    by (auto simp: storage_of_def tracker_of_def handle_call_tool_def scan_event_website_def
          enrich_contacts_def get_changes_def save_data_def Let_def
          split: option.splits sum.splits prod.splits write_outcome.splits)
qed (simp_all add: save_data_def)

theorem save_data_overwrites_in_place_witness:
  "write_text env_up two_tracked = Written
   \<and> save_data env_up two_tracked Absent = (None, Snapshot two_tracked, [Write two_tracked])
   \<and> write_text env_full two_tracked = WriteFailed 64 ''No space left on device''
   \<and> save_data env_full two_tracked (Snapshot init_tracker)
       = (Some (OSError ''No space left on device''), Torn two_tracked 64, [Write two_tracked])"
proof -
  have w: "write_text env_up two_tracked = Written"
    by (simp add: env_up_def)
  have t: "write_text env_full two_tracked = WriteFailed 64 ''No space left on device''"
    by (simp add: env_full_def)
  from save_data_overwrites_in_place [of env_up two_tracked Absent]
       save_data_overwrites_in_place [of env_full two_tracked "Snapshot init_tracker"] w t
  show ?thesis by blast
qed

text \<open>
  The file holds the snapshot of an earlier save and the disk fills during the write of
  a run: the call raises, and the file is neither the earlier snapshot nor a whole one.
\<close>

theorem save_torn_counterexample:
  "reply_of (handle_call_tool env_full ''enrich-contacts'' (Some seq_args) two_tracked
        (Snapshot two_tracked))
     = Inl (OSError ''No space left on device'')
   \<and> storage_of (handle_call_tool env_full ''enrich-contacts'' (Some seq_args) two_tracked
        (Snapshot two_tracked))
     = Torn two_tracked 64
   \<and> storage_of (handle_call_tool env_full ''enrich-contacts'' (Some seq_args) two_tracked
        (Snapshot two_tracked))
     \<noteq> Snapshot two_tracked"
  by code_simp


section \<open>enrich-contacts: the batch call and the save\<close>

text \<open>
  C6. The claim: after all companies, enroll is called once with the accumulated batch
  if and only if the batch is not empty, its failure is logged and not re-raised, and
  the save is made at the end in every case, so that merged contacts persist. In the
  spec the batch holds the newly inserted ids, each once; the code passes the ids of
  all contacts built in the run (see C2). What holds: the batch call is made once, with
  the ids of \<^verbatim>\<open>new_contacts\<close>, exactly when that list is not empty; no search follows
  it; its failure does not reach the reply, which depends on the write alone; the last
  call of the run is the write of the tracker, whose contact mapping holds every
  contact of the batch; and when the write returns the file is the snapshot of that
  tracker.
\<close>

theorem enrich_enroll_once_then_save:
  assumes "map_of a ''sequence_id'' = Some sid"
  shows "enrolled (trace_of (handle_call_tool e ''enrich-contacts'' (Some a) st f))
           = (if loop_built e 0 (map snd (companies st)) = [] then []
              else [(sid, map apollo_id (loop_built e 0 (map snd (companies st))))])
         \<and> searched (dropWhile (\<lambda>ev. \<not> is_enroll ev)
               (trace_of (handle_call_tool e ''enrich-contacts'' (Some a) st f))) = []
         \<and> last (trace_of (handle_call_tool e ''enrich-contacts'' (Some a) st f))
             = Write (tracker_of (handle_call_tool e ''enrich-contacts'' (Some a) st f))
         \<and> contacts (tracker_of (handle_call_tool e ''enrich-contacts'' (Some a) st f))
             = store_all (loop_built e 0 (map snd (companies st))) (contacts st)
         \<and> set (map apollo_id (loop_built e 0 (map snd (companies st))))
             \<subseteq> set (map fst (contacts (tracker_of (handle_call_tool e ''enrich-contacts'' (Some a) st f))))
         \<and> reply_of (handle_call_tool e ''enrich-contacts'' (Some a) st f)
             = (case write_text e (tracker_of (handle_call_tool e ''enrich-contacts'' (Some a) st f)) of
                  Written \<Rightarrow> Inr (Text (''Added ''
                            @ str_nat (length (loop_built e 0 (map snd (companies st))))
                            @ '' contacts to sequence''))
                | OpenFailed msg \<Rightarrow> Inl (OSError msg)
                | WriteFailed n msg \<Rightarrow> Inl (OSError msg))
         \<and> (write_text e (tracker_of (handle_call_tool e ''enrich-contacts'' (Some a) st f)) = Written
              \<longrightarrow> storage_of (handle_call_tool e ''enrich-contacts'' (Some a) st f)
                    = Snapshot (tracker_of (handle_call_tool e ''enrich-contacts'' (Some a) st f)))"
proof -
  let ?R = "handle_call_tool e ''enrich-contacts'' (Some a) st f"
  let ?cs = "map snd (companies st)"
  let ?new = "loop_built e 0 ?cs"
  note tr = enrich_run(3) [OF assms, of e st f]
  have once: "enrolled (trace_of ?R) = (if ?new = [] then [] else [(sid, map apollo_id ?new)])"
    by (simp add: tr)
  have "dropWhile (\<lambda>ev. \<not> is_enroll ev) (trace_of ?R)
          = dropWhile (\<lambda>ev. \<not> is_enroll ev) (enroll e sid ?new @ [Write (tracker_of ?R)])"
    unfolding tr by (rule dropWhile_append2) (rule is_enroll_loop_events)
  then have after: "searched (dropWhile (\<lambda>ev. \<not> is_enroll ev) (trace_of ?R)) = []"
    by (simp add: searched_dropWhile)
  have saved: "last (trace_of ?R) = Write (tracker_of ?R)"
    by (simp add: tr)
  have kept: "contacts (tracker_of ?R) = store_all ?new (contacts st)"
    by (simp add: enrich_run(2) [OF assms])
  have ids: "set (map apollo_id ?new) \<subseteq> set (map fst (contacts (tracker_of ?R)))"
    unfolding kept keys_store_all by blast
  have disk: "write_text e (tracker_of ?R) = Written \<longrightarrow> storage_of ?R = Snapshot (tracker_of ?R)"
    by (simp add: enrich_run(4) [OF assms])
  from once after saved kept ids disk enrich_run(1) [OF assms, of e st f] show ?thesis
    by blast
qed

theorem enrich_enroll_once_then_save_witness:
  "map_of seq_args ''sequence_id'' = Some ''s1''
   \<and> add_to_sequence env_up ''s1'' [''7'', ''7''] = Some ''refused''
   \<and> enrolled (trace_of (handle_call_tool env_up ''enrich-contacts'' (Some seq_args) two_tracked Absent))
       = [(''s1'', [''7'', ''7''])]
   \<and> last (trace_of (handle_call_tool env_up ''enrich-contacts'' (Some seq_args) two_tracked Absent))
       = Write (tracker_of (handle_call_tool env_up ''enrich-contacts'' (Some seq_args) two_tracked Absent))
   \<and> reply_of (handle_call_tool env_up ''enrich-contacts'' (Some seq_args) two_tracked Absent)
       = Inr (Text ''Added 2 contacts to sequence'')
   \<and> write_text env_up (tracker_of (handle_call_tool env_up ''enrich-contacts'' (Some seq_args) two_tracked Absent))
       = Written
   \<and> storage_of (handle_call_tool env_up ''enrich-contacts'' (Some seq_args) two_tracked Absent)
       = Snapshot (tracker_of (handle_call_tool env_up ''enrich-contacts'' (Some seq_args) two_tracked Absent))"
proof -
  have a: "map_of seq_args ''sequence_id'' = Some ''s1''"
    by (simp add: seq_args_def)
  have l: "map apollo_id (loop_built env_up 0 (map snd (companies two_tracked))) = [''7'', ''7'']"
    by (simp add: fixtures processed_def make_contact_def)
  then have ne: "loop_built env_up 0 (map snd (companies two_tracked)) \<noteq> []"
    and len: "length (loop_built env_up 0 (map snd (companies two_tracked))) = 2"
    using length_map [of apollo_id "loop_built env_up 0 (map snd (companies two_tracked))"]
    by auto
  have r: "add_to_sequence env_up ''s1'' [''7'', ''7''] = Some ''refused''"
    by (simp add: env_up_def)
  have w: "write_text env_up (tracker_of (handle_call_tool env_up ''enrich-contacts'' (Some seq_args) two_tracked Absent)) = Written"
    by (simp add: env_up_def)
  have z: "str_nat 2 = ''2''"
    by (simp add: str_nat.simps digit_def)
  note t = enrich_enroll_once_then_save [OF a, of env_up two_tracked Absent]
  from t l ne
  have "enrolled (trace_of (handle_call_tool env_up ''enrich-contacts'' (Some seq_args) two_tracked Absent))
       = [(''s1'', [''7'', ''7''])]"
    by simp
  moreover from t
  have "last (trace_of (handle_call_tool env_up ''enrich-contacts'' (Some seq_args) two_tracked Absent))
       = Write (tracker_of (handle_call_tool env_up ''enrich-contacts'' (Some seq_args) two_tracked Absent))"
    by blast
  moreover from t w len z
  have "reply_of (handle_call_tool env_up ''enrich-contacts'' (Some seq_args) two_tracked Absent)
       = Inr (Text ''Added 2 contacts to sequence'')"
    by simp
  moreover from t w
  have "storage_of (handle_call_tool env_up ''enrich-contacts'' (Some seq_args) two_tracked Absent)
       = Snapshot (tracker_of (handle_call_tool env_up ''enrich-contacts'' (Some seq_args) two_tracked Absent))"
    by blast
  ultimately show ?thesis using a r w by simp
qed

text \<open>
  The contact 7 is stored before the run and both searches return it: no id is newly
  inserted, and the batch call is made with 7 twice.
\<close>

theorem enrich_enroll_batch_counterexample:
  "new_ids two_tracked
       (tracker_of (handle_call_tool env_up ''enrich-contacts'' (Some seq_args) two_tracked Absent)) = []
   \<and> \<not> (enrolled (trace_of (handle_call_tool env_up ''enrich-contacts'' (Some seq_args) two_tracked Absent))
        = (if new_ids two_tracked
                (tracker_of (handle_call_tool env_up ''enrich-contacts'' (Some seq_args) two_tracked Absent)) = []
           then []
           else [(''s1'', new_ids two_tracked
                (tracker_of (handle_call_tool env_up ''enrich-contacts'' (Some seq_args) two_tracked Absent)))]))"
  by code_simp

section \<open>enrich-contacts: the ids stored\<close>

text \<open>
  C8. The claim: every contact id of a successful search result is in the contact
  mapping after the run, and a run whose results overlap the stored ids does not grow
  the mapping. The inner loop stops at the first record that lacks a field, so the ids
  of the later records of that result are not stored. What holds: every id of a result
  whose records all have the four fields is a key of the mapping after the run; when
  every id the run stores was a key before, the mapping has as many entries after the
  run as before; and the entry of an id is the contact built last for it in the run
  (latest wins), or the old entry when the run built none.
\<close>

theorem enrich_ids_stored_no_growth:
  assumes "map_of a ''sequence_id'' = Some sid"
  shows "(\<forall>k<length (companies st). \<forall>people.
            search_people e k (name (snd (companies st ! k))) seniority_levels = Inr people
            \<and> list_all well_formed people \<longrightarrow>
            (\<forall>p\<in>set people. \<forall>i. map_of p ''id'' = Some i \<longrightarrow>
               i \<in> set (map fst (contacts (tracker_of
                     (handle_call_tool e ''enrich-contacts'' (Some a) st f))))))
         \<and> (set (map apollo_id (loop_built e 0 (map snd (companies st))))
               \<subseteq> set (map fst (contacts st)) \<longrightarrow>
             length (contacts (tracker_of (handle_call_tool e ''enrich-contacts'' (Some a) st f)))
               = length (contacts st))
         \<and> (\<forall>i. map_of (contacts (tracker_of (handle_call_tool e ''enrich-contacts'' (Some a) st f))) i
               = (case find (\<lambda>c. apollo_id c = i) (rev (loop_built e 0 (map snd (companies st)))) of
                    Some c \<Rightarrow> Some c
                  | None \<Rightarrow> map_of (contacts st) i))"
proof (intro conjI allI impI ballI)
  let ?cs = "map snd (companies st)"
  let ?new = "loop_built e 0 ?cs"
  have kept: "contacts (tracker_of (handle_call_tool e ''enrich-contacts'' (Some a) st f))
                = store_all ?new (contacts st)"
    by (simp add: enrich_run(2) [OF assms])
  {
    fix k people p i
    assume k: "k < length (companies st)"
      and s: "search_people e k (name (snd (companies st ! k))) seniority_levels = Inr people
              \<and> list_all well_formed people"
      and p: "p \<in> set people" and i: "map_of p ''id'' = Some i"
    from k have k': "k < length ?cs" by simp
    from s k have pr: "processed e (0 + k) (?cs ! k) = built (name (?cs ! k)) people"
      by (simp add: processed_def)
    from s p i have "i \<in> set (map apollo_id (built (name (?cs ! k)) people))"
      by (intro built_ids) simp_all
    with pr processed_subset [OF k', of e 0] have "i \<in> set (map apollo_id ?new)"
      by auto
    then show "i \<in> set (map fst (contacts (tracker_of
                     (handle_call_tool e ''enrich-contacts'' (Some a) st f))))"
      unfolding kept keys_store_all by blast
  }
  {
    assume "set (map apollo_id ?new) \<subseteq> set (map fst (contacts st))"
    then show "length (contacts (tracker_of (handle_call_tool e ''enrich-contacts'' (Some a) st f)))
               = length (contacts st)"
      unfolding kept by (rule length_store_all)
  }
  {
    fix i
    show "map_of (contacts (tracker_of (handle_call_tool e ''enrich-contacts'' (Some a) st f))) i
            = (case find (\<lambda>c. apollo_id c = i) (rev ?new) of
                 Some c \<Rightarrow> Some c
               | None \<Rightarrow> map_of (contacts st) i)"
      unfolding kept by (rule map_of_store_all)
  }
qed

theorem enrich_ids_stored_no_growth_witness:
  "map_of seq_args ''sequence_id'' = Some ''s1''
   \<and> ''7'' \<in> set (map fst (contacts (tracker_of
            (handle_call_tool env_up ''enrich-contacts'' (Some seq_args) two_tracked Absent))))
   \<and> length (contacts (tracker_of (handle_call_tool env_up ''enrich-contacts'' (Some seq_args) two_tracked Absent)))
       = length (contacts two_tracked)
   \<and> map_of (contacts (tracker_of (handle_call_tool env_up ''enrich-contacts'' (Some seq_args) two_tracked Absent))) ''7''
       = Some \<lparr>contact_name = ''Ann'', title = ''CEO'', contact_company = ''B'',
                 email = ''ann@a.example'', apollo_id = ''7''\<rparr>"
proof -
  have a: "map_of seq_args ''sequence_id'' = Some ''s1''"
    by (simp add: seq_args_def)
  have k: "(0::nat) < length (companies two_tracked)"
    by (simp add: two_tracked_def)
  have s: "search_people env_up 0 (name (snd (companies two_tracked ! 0))) seniority_levels
             = Inr [a_person ''7''] \<and> list_all well_formed [a_person ''7'']"
    by (simp add: env_up_def a_person_def well_formed_def)
  have p: "a_person ''7'' \<in> set [a_person ''7'']" "map_of (a_person ''7'') ''id'' = Some ''7''"
    by (simp_all add: a_person_def)
  have l: "loop_built env_up 0 (map snd (companies two_tracked))
             = [\<lparr>contact_name = ''Ann'', title = ''CEO'', contact_company = ''A'',
                   email = ''ann@a.example'', apollo_id = ''7''\<rparr>,
                \<lparr>contact_name = ''Ann'', title = ''CEO'', contact_company = ''B'',
                   email = ''ann@a.example'', apollo_id = ''7''\<rparr>]"
    by (simp add: fixtures processed_def make_contact_def)
  have sub: "set (map apollo_id (loop_built env_up 0 (map snd (companies two_tracked))))
               \<subseteq> set (map fst (contacts two_tracked))"
    unfolding l by (simp add: two_tracked_def)
  note t = enrich_ids_stored_no_growth [OF a, of two_tracked env_up Absent]
  from t k s p
  have "''7'' \<in> set (map fst (contacts (tracker_of
            (handle_call_tool env_up ''enrich-contacts'' (Some seq_args) two_tracked Absent))))"
    by blast
  moreover from t sub
  have "length (contacts (tracker_of (handle_call_tool env_up ''enrich-contacts'' (Some seq_args) two_tracked Absent)))
       = length (contacts two_tracked)"
    by blast
  moreover from t
  have "map_of (contacts (tracker_of (handle_call_tool env_up ''enrich-contacts'' (Some seq_args) two_tracked Absent))) ''7''
       = (case find (\<lambda>c. apollo_id c = ''7'') (rev (loop_built env_up 0 (map snd (companies two_tracked)))) of
            Some c \<Rightarrow> Some c
          | None \<Rightarrow> map_of (contacts two_tracked) ''7'')"
    by blast
  then have "map_of (contacts (tracker_of (handle_call_tool env_up ''enrich-contacts'' (Some seq_args) two_tracked Absent))) ''7''
       = Some \<lparr>contact_name = ''Ann'', title = ''CEO'', contact_company = ''B'',
                 email = ''ann@a.example'', apollo_id = ''7''\<rparr>"
    unfolding l by simp
  ultimately show ?thesis using a by simp
qed

text \<open>
  The search returns three records and the second has no title: the contact 1 is
  stored, and the id 3 of the third record is not in the mapping after the run.
\<close>

theorem enrich_later_id_counterexample:
  "search_people env_gap 0 ''A'' seniority_levels
     = Inr [a_person ''1'',
            [(''name'', ''Bob''), (''email'', ''bob@a.example''), (''id'', ''2'')],
            a_person ''3'']
   \<and> map_of (a_person ''3'') ''id'' = Some ''3''
   \<and> reply_of (handle_call_tool env_gap ''enrich-contacts'' (Some seq_args) one_tracked Absent)
       = Inr (Text ''Added 1 contacts to sequence'')
   \<and> ''3'' \<notin> set (map fst (contacts (tracker_of
         (handle_call_tool env_gap ''enrich-contacts'' (Some seq_args) one_tracked Absent))))"
  by code_simp

section \<open>The diff\<close>



end
